theory Spec2Isabelle
  imports Complex_Main "HOL-Library.Word"
begin

section \<open>Python values, failures and containers\<close>

text \<open>
  The two programs are \<^verbatim>\<open>analysis-tools/analyze_front.py\<close> (the front pipeline) and
  \<^verbatim>\<open>xptools/analyze_bubbles.py\<close> (the bubble pipeline). Neither defines an exception
  class of its own: every failure is an exception of Python or of a library, and it
  ends the run. The model returns it as the left summand.
\<close>

datatype error =
    IndexError      \<comment> \<open>a list index or \<^verbatim>\<open>.iloc[0]\<close> out of range\<close>
  | ValueError      \<comment> \<open>\<^verbatim>\<open>np.argmax\<close> or \<^verbatim>\<open>pd.concat\<close> of nothing; the explicit raise of the bubble main\<close>
  | RuntimeError    \<comment> \<open>\<^verbatim>\<open>threshold_minimum\<close> finds no two maxima\<close>
  | OSError         \<comment> \<open>a file or directory that cannot be read or decoded\<close>
  | Exception       \<comment> \<open>\<^verbatim>\<open>raise Exception('No video file in directory.')\<close>\<close>

text \<open>
  \<^verbatim>\<open>xs[i]\<close> on a Python list: an index below zero counts from the end, and an index
  outside \<^verbatim>\<open>-len(xs) .. len(xs)-1\<close> raises IndexError.
\<close>

definition py_index :: "'a list \<Rightarrow> int \<Rightarrow> error + 'a" where
  "py_index xs i =
     (if 0 \<le> i \<and> i < int (length xs) then Inr (xs ! nat i)
      else if i < 0 \<and> - int (length xs) \<le> i then Inr (xs ! nat (i + int (length xs)))
      else Inl IndexError)"

text \<open>
  \<^verbatim>\<open>xs[lo:hi]\<close> on a sequence of length \<open>n\<close>: each bound below zero has \<open>n\<close>
  added, and is then clipped to \<open>0 .. n\<close>; the slice is empty when the clipped bounds
  cross. A slice never raises.
\<close>

definition slice_bound :: "nat \<Rightarrow> int \<Rightarrow> nat" where
  "slice_bound n i = (if i < 0 then nat (i + int n) else min (nat i) n)"

definition py_slice :: "'a list \<Rightarrow> int \<Rightarrow> int \<Rightarrow> 'a list" where
  "py_slice xs lo hi =
     take (slice_bound (length xs) hi - slice_bound (length xs) lo)
       (drop (slice_bound (length xs) lo) xs)"

text \<open>\<^verbatim>\<open>s.split(c)\<close> for a separator of one character: never an empty list.\<close>

fun split_sep :: "char \<Rightarrow> string \<Rightarrow> string list" where
  "split_sep c [] = [[]]"
| "split_sep c (x # xs) =
     (if x = c then [] # split_sep c xs
      else (case split_sep c xs of
              [] \<Rightarrow> [[x]]
            | w # ws \<Rightarrow> (x # w) # ws))"

definition endswith :: "string \<Rightarrow> string \<Rightarrow> bool" where
  "endswith s suf = (length suf \<le> length s \<and> drop (length s - length suf) s = suf)"

text \<open>
  \<^verbatim>\<open>name = file.split('.')[0].split('/')[-1]\<close>, the experiment name of a file. Both
  indexings are in range, since \<^verbatim>\<open>split\<close> returns at least one piece.
\<close>

definition exp_name :: "string \<Rightarrow> string" where
  "exp_name file = last (split_sep CHR ''/'' (hd (split_sep CHR ''.'' file)))"

section \<open>Frames, cropping boxes and regions\<close>

type_synonym 'a grid = "'a list list"

text \<open>A frame after \<^verbatim>\<open>img_as_ubyte(rgb2gray(...))\<close>: rows of 8-bit grey values.\<close>

type_synonym frame = "8 word grid"

text \<open>\<^verbatim>\<open>(minRow, minCol, maxRow, maxCol)\<close>, as the ROI selector returns it.\<close>

type_synonym box = "int \<times> int \<times> int \<times> int"

text \<open>
  The Cropper is the numpy expression \<^verbatim>\<open>img[minRow:maxRow, minCol:maxCol]\<close>, written
  in \<^verbatim>\<open>process_movie\<close> and in the bubble \<^verbatim>\<open>main\<close>: a slice of the rows, and the same
  slice of every row that is kept.
\<close>

definition crop :: "'a grid \<Rightarrow> box \<Rightarrow> 'a grid" where
  "crop img b =
     (case b of (minRow, minCol, maxRow, maxCol) \<Rightarrow>
        map (\<lambda>row. py_slice row minCol maxCol) (py_slice img minRow maxRow))"

text \<open>\<^verbatim>\<open>img.shape\<close> of a two-dimensional array held as a list of rows of one length.\<close>

definition shape0 :: "'a grid \<Rightarrow> nat" where
  "shape0 img = length img"

definition shape1 :: "'a grid \<Rightarrow> nat" where
  "shape1 img = (case img of [] \<Rightarrow> 0 | row # _ \<Rightarrow> length row)"

text \<open>What \<^verbatim>\<open>regionprops\<close> yields for one labelled region, as far as the programs read it.\<close>

record region =
  label :: nat
  area :: nat
  bbox :: "nat \<times> nat \<times> nat \<times> nat"
  eccentricity :: real
  bbox_area :: nat

text \<open>
  A numpy float: the areas of \<^verbatim>\<open>regionprops\<close> are numpy scalars, whose true division
  by zero gives \<^verbatim>\<open>inf\<close> or \<^verbatim>\<open>nan\<close> (with a warning) and does not raise. Rounding is
  not modelled: a finite quotient is the real quotient.
\<close>

datatype npfloat = Finite real | PosInf | NotANumber

definition np_truediv :: "nat \<Rightarrow> real \<Rightarrow> npfloat" where
  "np_truediv a b =
     (if b = 0 then (if a = 0 then NotANumber else PosInf) else Finite (real a / b))"

section \<open>The libraries and the ROI selector\<close>

text \<open>
  PyAV, scikit-image, scipy, the operating system and the interactive ROI selector
  (\<^verbatim>\<open>select_roi.select_rectangle\<close>, \<^verbatim>\<open>imagetools.obtain_cropping_boxes\<close>, whose sources are
  not part of the files at hand) are parameters of the model: every theorem holds for
  whatever these functions compute. \<open>'p\<close> is the pixel type of a decoded image.
\<close>

datatype footprint = Square nat | DefaultFootprint

record 'p lib =
  av_decode :: "string \<Rightarrow> error + 'p grid list"
  imread :: "string \<Rightarrow> error + 'p grid"
  gray_ubyte :: "'p grid \<Rightarrow> frame"
  threshold_minimum :: "frame \<Rightarrow> error + real"
  threshold_otsu :: "frame \<Rightarrow> real"
  closing :: "footprint \<Rightarrow> bool grid \<Rightarrow> bool grid"
  measure_label :: "bool grid \<Rightarrow> nat grid"
  regionprops :: "nat grid \<Rightarrow> region list"
  distance_transform_edt :: "bool grid \<Rightarrow> real grid"
  rescale_intensity :: "real grid \<Rightarrow> real grid"
  peak_local_max :: "real grid \<Rightarrow> bool grid"
  ndi_label :: "bool grid \<Rightarrow> nat grid \<times> nat"
  watershed :: "real grid \<Rightarrow> nat grid \<Rightarrow> bool grid \<Rightarrow> nat grid"
  select_rectangle :: "frame \<Rightarrow> box"
  imagetools_obtain_cropping_boxes :: "string list \<Rightarrow> error + (string \<times> box) list"
  listdir :: "string \<Rightarrow> error + string list"
  isfile :: "string \<Rightarrow> bool"
  isdir :: "string \<Rightarrow> bool"
  abspath :: "string \<Rightarrow> string"
  os_dirname :: "string \<Rightarrow> string"

section \<open>The front pipeline: \<^verbatim>\<open>analyze_front.py\<close>\<close>

text \<open>\<^verbatim>\<open>open_video\<close>: every decoded frame, in order, converted to grey 8-bit values.\<close>

definition open_video :: "'p lib \<Rightarrow> string \<Rightarrow> error + frame list" where
  "open_video L file =
     (case av_decode L file of
        Inl e \<Rightarrow> Inl e
      | Inr imgs \<Rightarrow> Inr (map (gray_ubyte L) imgs))"

text \<open>\<^verbatim>\<open>determine_threshold\<close>: \<^verbatim>\<open>threshold_minimum(stack[len(stack)//2])\<close>.\<close>

definition determine_threshold :: "'p lib \<Rightarrow> frame list \<Rightarrow> error + real" where
  "determine_threshold L stack =
     (case py_index stack (int (length stack) div 2) of
        Inl e \<Rightarrow> Inl e
      | Inr img \<Rightarrow> threshold_minimum L img)"

text \<open>
  \<^verbatim>\<open>obtain_cropping_boxes\<close>: for each file in turn, the ROI selector is shown the frame
  \<^verbatim>\<open>stack[len(stack) - 10]\<close>, and a row (name, box) is appended to the table. The table
  is an association list in insertion order.
\<close>

definition roi_frame :: "'a list \<Rightarrow> error + 'a" where
  "roi_frame stack = py_index stack (int (length stack) - 10)"

fun cropping_loop ::
  "'p lib \<Rightarrow> string list \<Rightarrow> (string \<times> box) list \<Rightarrow> error + (string \<times> box) list" where
  "cropping_loop L [] df_crop = Inr df_crop"
| "cropping_loop L (file # files) df_crop =
     (case open_video L file of
        Inl e \<Rightarrow> Inl e
      | Inr stack \<Rightarrow>
          (case roi_frame stack of
             Inl e \<Rightarrow> Inl e
           | Inr img \<Rightarrow>
               cropping_loop L files (df_crop @ [(exp_name file, select_rectangle L img)])))"

definition obtain_cropping_boxes :: "'p lib \<Rightarrow> string list \<Rightarrow> error + (string \<times> box) list" where
  "obtain_cropping_boxes L file_list = cropping_loop L file_list []"

text \<open>
  \<^verbatim>\<open>np.argmax\<close> of a list of integers: the index of the first occurrence of the
  maximum, found in one pass that replaces the best index only on a strictly larger
  value; ValueError on an empty sequence.
\<close>

fun argmax_scan :: "nat \<Rightarrow> nat \<Rightarrow> nat \<Rightarrow> nat list \<Rightarrow> nat" where
  "argmax_scan best bv i [] = best"
| "argmax_scan best bv i (x # xs) =
     (if bv < x then argmax_scan i x (Suc i) xs else argmax_scan best bv (Suc i) xs)"

definition np_argmax :: "nat list \<Rightarrow> error + nat" where
  "np_argmax xs =
     (case xs of
        [] \<Rightarrow> Inl ValueError
      | x # rest \<Rightarrow> Inr (argmax_scan 0 x 1 rest))"

text \<open>\<^verbatim>\<open>img > thresh\<close>, elementwise.\<close>

definition gt_threshold :: "frame \<Rightarrow> real \<Rightarrow> bool grid" where
  "gt_threshold img thresh = map (map (\<lambda>p. thresh < real (unat p))) img"

text \<open>
  One row of the front table, in the column order
  \<^verbatim>\<open>['ExpName','Frame #','Area','MinRow','MinCol','MaxRow','MaxCol','HeightPx']\<close>.
\<close>

record front_row =
  ExpName :: string
  FrameNo :: nat
  Area :: nat
  MinRow :: nat
  MinCol :: nat
  MaxRow :: nat
  MaxCol :: nat
  HeightPx :: npfloat

text \<open>
  \<^verbatim>\<open>analyze_front\<close>: threshold, close with a 3 by 3 square, label, take the region
  properties, and report the region at \<^verbatim>\<open>np.argmax\<close> of the areas.
\<close>

definition analyze_front :: "'p lib \<Rightarrow> frame \<Rightarrow> real \<Rightarrow> string \<Rightarrow> nat \<Rightarrow> error + front_row" where
  "analyze_front L img thresh expName stackIdx =
     (let img_min_thresh = gt_threshold img thresh;
          bw = closing L (Square 3) img_min_thresh;
          label_image = measure_label L bw;
          regProp = regionprops L label_image
      in case np_argmax (map area regProp) of
           Inl e \<Rightarrow> Inl e
         | Inr k \<Rightarrow>
             (let largest = regProp ! k
              in case bbox largest of (minr, minc, maxr, maxc) \<Rightarrow>
                   Inr \<lparr>ExpName = expName, FrameNo = stackIdx, Area = area largest,
                        MinRow = minr, MinCol = minc, MaxRow = maxr, MaxCol = maxc,
                        HeightPx = np_truediv (area largest) (real (shape0 img))\<rparr>))"

text \<open>
  \<^verbatim>\<open>df_crop[df_crop['ExpName'] == name]['CroppingBox'].iloc[0]\<close>: the box of the first
  row of that name; IndexError when there is none.
\<close>

definition cropping_box_of :: "(string \<times> box) list \<Rightarrow> string \<Rightarrow> error + box" where
  "cropping_box_of df_crop name =
     (case filter (\<lambda>row. fst row = name) df_crop of
        [] \<Rightarrow> Inl IndexError
      | row # _ \<Rightarrow> Inr (snd row))"

text \<open>
  The loop \<^verbatim>\<open>for i in range(len(stack)): df.loc[i] = analyze_front(stack[i], ...)\<close>.
  The labels \<open>i\<close> are new and ascending, so each assignment appends a row.
\<close>

fun front_loop ::
  "'p lib \<Rightarrow> frame list \<Rightarrow> real \<Rightarrow> string \<Rightarrow> nat list \<Rightarrow> front_row list \<Rightarrow> error + front_row list" where
  "front_loop L stack min_thresh name [] df = Inr df"
| "front_loop L stack min_thresh name (i # idxs) df =
     (case py_index stack (int i) of
        Inl e \<Rightarrow> Inl e
      | Inr img \<Rightarrow>
          (case analyze_front L img min_thresh name i of
             Inl e \<Rightarrow> Inl e
           | Inr row \<Rightarrow> front_loop L stack min_thresh name idxs (df @ [row])))"

text \<open>
  \<^verbatim>\<open>process_movie\<close>. The cropped stack is built and handed to
  \<^verbatim>\<open>determine_threshold\<close>; the loop then reads \<^verbatim>\<open>stack[i]\<close>, the decoded frame.
\<close>

definition process_movie :: "'p lib \<Rightarrow> string \<Rightarrow> (string \<times> box) list \<Rightarrow> error + front_row list" where
  "process_movie L file df_crop =
     (let name = exp_name file
      in case open_video L file of
           Inl e \<Rightarrow> Inl e
         | Inr stack \<Rightarrow>
             (case cropping_box_of df_crop name of
                Inl e \<Rightarrow> Inl e
              | Inr b \<Rightarrow>
                  (let stack_cropped = map (\<lambda>img. crop img b) stack
                   in case determine_threshold L stack_cropped of
                        Inl e \<Rightarrow> Inl e
                      | Inr min_thresh \<Rightarrow>
                          front_loop L stack min_thresh name [0..<length stack] [])))"

text \<open>
  \<^verbatim>\<open>Parallel(n_jobs=-2)(delayed(f)(x) for x in xs)\<close> of joblib. The jobs finish in
  some order, here given by a finishing time for each job number; a finished job
  writes its result into the slot of its own number, the first job to finish with an
  exception ends the call with it, and the slots are read out in the order of the
  tasks.
\<close>

definition completion_order :: "(nat \<Rightarrow> nat) \<Rightarrow> nat \<Rightarrow> nat list" where
  "completion_order finish n = sort_key finish [0..<n]"

fun run_jobs :: "(nat \<Rightarrow> error + 'b) \<Rightarrow> nat list \<Rightarrow> (nat \<rightharpoonup> 'b) \<Rightarrow> error + (nat \<rightharpoonup> 'b)" where
  "run_jobs job [] slots = Inr slots"
| "run_jobs job (i # order) slots =
     (case job i of
        Inl e \<Rightarrow> Inl e
      | Inr r \<Rightarrow> run_jobs job order (slots(i \<mapsto> r)))"

fun gather :: "(nat \<rightharpoonup> 'b) \<Rightarrow> nat list \<Rightarrow> 'b list" where
  "gather slots [] = []"
| "gather slots (i # idxs) =
     (case slots i of
        None \<Rightarrow> gather slots idxs
      | Some r \<Rightarrow> r # gather slots idxs)"

definition Parallel :: "(nat \<Rightarrow> nat) \<Rightarrow> ('a \<Rightarrow> error + 'b) \<Rightarrow> 'a list \<Rightarrow> error + 'b list" where
  "Parallel finish f tasks =
     (case run_jobs (\<lambda>i. f (tasks ! i)) (completion_order finish (length tasks)) Map.empty of
        Inl e \<Rightarrow> Inl e
      | Inr slots \<Rightarrow> Inr (gather slots [0..<length tasks]))"

text \<open>
  \<^verbatim>\<open>pd.concat(df_list).reset_index(drop=True)\<close>: the rows of the tables one after the
  other, renumbered; ValueError when there is no table to concatenate.
\<close>

definition pd_concat :: "'r list list \<Rightarrow> error + 'r list" where
  "pd_concat df_list = (if df_list = [] then Inl ValueError else Inr (concat df_list))"

text \<open>
  What a run can change outside itself: the pickled tables, by path, and the tables
  handed to the plotting functions, each with the path argument it was plotted with.
\<close>

record 'r world =
  pickles :: "string \<rightharpoonup> 'r list"
  plotted :: "('r list \<times> string) list"



text \<open>The \<^verbatim>\<open>else\<close> branch of the front main, up to the table that is saved.\<close>

definition process_all :: "'p lib \<Rightarrow> (nat \<Rightarrow> nat) \<Rightarrow> string list \<Rightarrow> error + front_row list" where
  "process_all L finish file_list =
     (case obtain_cropping_boxes L file_list of
        Inl e \<Rightarrow> Inl e
      | Inr df_crop \<Rightarrow>
          (case Parallel finish (\<lambda>file. process_movie L file df_crop) file_list of
             Inl e \<Rightarrow> Inl e
           | Inr df_list \<Rightarrow> pd_concat df_list))"



section \<open>The bubble pipeline: \<^verbatim>\<open>analyze_bubbles.py\<close>\<close>

text \<open>
  One row of the bubble table, columns
  \<^verbatim>\<open>['Frame','Label','Area','Eccentricity','Bbox Area']\<close>.
\<close>

record bubble_row =
  Frame :: int
  Label :: nat
  BubbleArea :: npfloat
  Eccentricity :: real
  BboxArea :: npfloat

text \<open>
  \<^verbatim>\<open>analyze_bubbles\<close>, first part: from the image to the region properties of the
  relabelled watershed output. \<^verbatim>\<open>ndi.label\<close> takes every non-zero entry as foreground.
\<close>

definition segment_bubbles :: "'p lib \<Rightarrow> 'p grid \<Rightarrow> region list" where
  "segment_bubbles L img =
     (let img_gray = gray_ubyte L img;
          img_bin = gt_threshold img_gray (threshold_otsu L img_gray);
          img_closed = closing L DefaultFootprint img_bin;
          dist = distance_transform_edt L img_closed;
          dist_cont = rescale_intensity L dist;
          local_maxi = peak_local_max L dist_cont;
          markers = fst (ndi_label L local_maxi);
          img_segmented = watershed L (map (map uminus) dist_cont) markers img_closed;
          img_labeled = fst (ndi_label L (map (map (\<lambda>v. v \<noteq> 0)) img_segmented))
      in regionprops L img_labeled)"

text \<open>Second part: one appended row for each element of \<^verbatim>\<open>reg\<close>, in its order.\<close>

definition analyze_bubbles :: "'p lib \<Rightarrow> 'p grid \<Rightarrow> real \<Rightarrow> int \<Rightarrow> bubble_row list" where
  "analyze_bubbles L img scale frame =
     map (\<lambda>i. \<lparr>Frame = frame, Label = label i,
               BubbleArea = np_truediv (area i) (scale ^ 2),
               Eccentricity = eccentricity i,
               BboxArea = np_truediv (bbox_area i) (scale ^ 2)\<rparr>)
       (segment_bubbles L img)"

text \<open>The file list of the bubble main, with its \<^verbatim>\<open>isFile\<close> flag.\<close>

definition bubble_file_list :: "'p lib \<Rightarrow> string \<Rightarrow> error + (string list \<times> bool)" where
  "bubble_file_list L dirname =
     (if isfile L dirname \<and> endswith dirname ''.png'' then Inr ([abspath L dirname], True)
      else if isdir L dirname then
        (case listdir L dirname of
           Inl e \<Rightarrow> Inl e
         | Inr names \<Rightarrow>
             Inr (map (\<lambda>file. dirname @ ''/'' @ file)
                    (filter (\<lambda>file. endswith file ''.png'') names), False))
      else Inl ValueError)"

definition bubble_savepath :: "'p lib \<Rightarrow> string \<Rightarrow> bool \<Rightarrow> string" where
  "bubble_savepath L dirname isFile =
     (if isFile then
        abspath L (os_dirname L dirname) @ ''/'' @ ''ProcessedData_'' @ exp_name dirname @ ''.pkl''
      else dirname @ ''/'' @ ''ProcessedData'' @ ''.pkl'')"

text \<open>
  The loop over the files: look the box up, read the image, crop it, analyse it with
  frame number 0, and plot the table of this file.
\<close>

fun bubble_loop ::
  "'p lib \<Rightarrow> (string \<times> box) list \<Rightarrow> real \<Rightarrow> string \<Rightarrow> string list \<Rightarrow> bubble_row world
     \<Rightarrow> error option \<times> bubble_row world" where
  "bubble_loop L df_crop scale savepath [] w = (None, w)"
| "bubble_loop L df_crop scale savepath (file # files) w =
     (case cropping_box_of df_crop (exp_name file) of
        Inl e \<Rightarrow> (Some e, w)
      | Inr b \<Rightarrow>
          (case imread L file of
             Inl e \<Rightarrow> (Some e, w)
           | Inr img \<Rightarrow>
               (let img_cropped = crop img b;
                    df = analyze_bubbles L img_cropped scale 0
                in bubble_loop L df_crop scale savepath files
                     (w\<lparr>plotted := plotted w @ [(df, savepath)]\<rparr>))))"

definition bubble_main ::
  "'p lib \<Rightarrow> string \<Rightarrow> bool \<Rightarrow> real \<Rightarrow> bubble_row world \<Rightarrow> error option \<times> bubble_row world" where
  "bubble_main L dirname bReprocess scale w =
     (case bubble_file_list L dirname of
        Inl e \<Rightarrow> (Some e, w)
      | Inr (file_list, isFile) \<Rightarrow>
          (if length file_list = 0 then (Some Exception, w)
           else
             (let savepath = bubble_savepath L dirname isFile
              in case imagetools_obtain_cropping_boxes L file_list of
                   Inl e \<Rightarrow> (Some e, w)
                 | Inr df_crop \<Rightarrow> bubble_loop L df_crop scale savepath file_list w)))"

section \<open>A small instance for concrete runs\<close>

text \<open>
  A library instance on which the programs can be run by rewriting. Its image
  operations are deliberately crude: closing changes nothing, every foreground pixel
  gets label 1, and the whole foreground is reported as one region.
\<close>

definition demo_frames :: "frame list" where
  "demo_frames =
     [[[10, 200], [10, 10]], [[10, 200], [10, 10]], [[10, 200], [200, 10]],
      [[10, 200], [200, 200]], [[200, 200], [200, 200]]]"

definition demo_regionprops :: "nat grid \<Rightarrow> region list" where
  "demo_regionprops lab =
     (let n = length (filter (\<lambda>v. v \<noteq> 0) (concat lab))
      in if n = 0 then []
         else [\<lparr>label = 1, area = n, bbox = (0, 0, shape0 lab, shape1 lab),
                eccentricity = 0, bbox_area = shape0 lab * shape1 lab\<rparr>])"

definition demo_lib :: "8 word lib" where
  "demo_lib =
     \<lparr>av_decode = (\<lambda>file. Inr demo_frames),
      imread = (\<lambda>file. if file = ''d/x.png'' then Inr [[10, 200], [200, 200]]
                       else Inr [[200, 200], [200, 200]]),
      gray_ubyte = (\<lambda>img. img),
      threshold_minimum = (\<lambda>img. Inr 100),
      threshold_otsu = (\<lambda>img. 100),
      closing = (\<lambda>fp bw. bw),
      measure_label = (\<lambda>bw. map (map (\<lambda>b. if b then 1 else 0)) bw),
      regionprops = demo_regionprops,
      distance_transform_edt = (\<lambda>bw. map (map (\<lambda>b. if b then 1 else 0)) bw),
      rescale_intensity = (\<lambda>d. d),
      peak_local_max = (\<lambda>d. map (map (\<lambda>v. 0 < v)) d),
      ndi_label = (\<lambda>bw. (map (map (\<lambda>b. if b then 1 else 0)) bw, 1)),
      watershed = (\<lambda>d markers mask. markers),
      select_rectangle = (\<lambda>img. (0, 0, 1, 2)),
      imagetools_obtain_cropping_boxes =
        (\<lambda>files. Inr (map (\<lambda>file. (exp_name file, (0, 0, 1, 2))) files)),
      listdir = (\<lambda>d. Inr [''a.avi'', ''notes.txt'', ''b.avi'', ''x.png'', ''y.png'']),
      isfile = (\<lambda>p. False),
      isdir = (\<lambda>p. True),
      abspath = (\<lambda>p. p),
      os_dirname = (\<lambda>p. p)\<rparr>"

text \<open>Three regions, the second and third of one area: a tie for the maximum.\<close>

definition demo_regions :: "region list" where
  "demo_regions =
     [\<lparr>label = 1, area = 50, bbox = (0, 0, 5, 10), eccentricity = 0, bbox_area = 50\<rparr>,
      \<lparr>label = 2, area = 200, bbox = (10, 0, 20, 20), eccentricity = 0, bbox_area = 200\<rparr>,
      \<lparr>label = 3, area = 200, bbox = (30, 0, 40, 20), eccentricity = 0, bbox_area = 200\<rparr>]"


text \<open>What the front pipeline computes for a clip of this instance, by experiment name.\<close>

definition demo_rows :: "string \<Rightarrow> front_row list" where
  "demo_rows name =
     [\<lparr>ExpName = name, FrameNo = 0, Area = 1, MinRow = 0, MinCol = 0,
       MaxRow = 2, MaxCol = 2, HeightPx = Finite (1 / 2)\<rparr>,
      \<lparr>ExpName = name, FrameNo = 1, Area = 1, MinRow = 0, MinCol = 0,
       MaxRow = 2, MaxCol = 2, HeightPx = Finite (1 / 2)\<rparr>,
      \<lparr>ExpName = name, FrameNo = 2, Area = 2, MinRow = 0, MinCol = 0,
       MaxRow = 2, MaxCol = 2, HeightPx = Finite 1\<rparr>,
      \<lparr>ExpName = name, FrameNo = 3, Area = 3, MinRow = 0, MinCol = 0,
       MaxRow = 2, MaxCol = 2, HeightPx = Finite (3 / 2)\<rparr>,
      \<lparr>ExpName = name, FrameNo = 4, Area = 4, MinRow = 0, MinCol = 0,
       MaxRow = 2, MaxCol = 2, HeightPx = Finite 2\<rparr>]"


text \<open>What the bubble pipeline computes for the two images of this instance.\<close>

definition demo_bubbles_x :: "bubble_row list" where
  "demo_bubbles_x =
     [\<lparr>Frame = 0, Label = 1, BubbleArea = Finite (1 / 4), Eccentricity = 0,
       BboxArea = Finite (1 / 2)\<rparr>]"

definition demo_bubbles_y :: "bubble_row list" where
  "demo_bubbles_y =
     [\<lparr>Frame = 0, Label = 1, BubbleArea = Finite (1 / 2), Eccentricity = 0,
       BboxArea = Finite (1 / 2)\<rparr>]"

section \<open>Properties of the Python containers\<close>

lemma split_sep_nonempty: "split_sep c s \<noteq> []"
  by (induction s) (auto split: list.splits)

section \<open>The Cropper\<close>

lemma py_slice_nonneg:
  assumes "0 \<le> lo" and "0 \<le> hi"
  shows "py_slice xs lo hi = take (min (nat hi) (length xs) - nat lo) (drop (nat lo) xs)"
proof (cases "nat lo \<le> length xs")
  case True
  with assms show ?thesis
    by (simp add: py_slice_def slice_bound_def min_def)
next
  case False
  with assms show ?thesis
    by (simp add: py_slice_def slice_bound_def min_def)
qed

text \<open>
  Claim C2, as the code has it. The Cropper is a numpy slice, and a slice has no
  failure: for every grid and every box of non-negative coordinates (the invariant of a
  CroppingBox asks for \<open>0 \<le> minRow < maxRow\<close> and likewise for the columns) the result
  is the sub-grid of the rows \<open>minRow ..< min maxRow height\<close> and, of each such row, the
  columns \<open>minCol ..< min maxCol width\<close>. A box that reaches beyond the frame is clipped to
  it without a word; a box inside the frame gives \<open>maxRow - minRow\<close> rows.
\<close>

theorem crop_clips_to_frame:
  assumes "0 \<le> minRow" and "0 \<le> minCol" and "0 \<le> maxRow" and "0 \<le> maxCol"
  shows "crop img (minRow, minCol, maxRow, maxCol) =
           map (\<lambda>row. take (min (nat maxCol) (length row) - nat minCol) (drop (nat minCol) row))
             (take (min (nat maxRow) (shape0 img) - nat minRow) (drop (nat minRow) img))
         \<and> shape0 (crop img (minRow, minCol, maxRow, maxCol)) =
             min (nat maxRow) (shape0 img) - nat minRow"
proof -
  have rows: "py_slice img minRow maxRow =
                take (min (nat maxRow) (length img) - nat minRow) (drop (nat minRow) img)"
    using assms(1,3) by (rule py_slice_nonneg)
  have cols: "\<And>row. py_slice row minCol maxCol =
                take (min (nat maxCol) (length row) - nat minCol) (drop (nat minCol) row)"
    using assms(2,4) by (rule py_slice_nonneg)
  have eq: "crop img (minRow, minCol, maxRow, maxCol) =
           map (\<lambda>row. take (min (nat maxCol) (length row) - nat minCol) (drop (nat minCol) row))
             (take (min (nat maxRow) (shape0 img) - nat minRow) (drop (nat minRow) img))"
    by (simp add: crop_def rows cols shape0_def)
  have "shape0 (crop img (minRow, minCol, maxRow, maxCol)) =
          min (nat maxRow) (shape0 img) - nat minRow"
    unfolding eq shape0_def by (simp del: take_drop)
  with eq show ?thesis by simp
qed

text \<open>The theorem at a 2 by 2 frame, with a box beyond the frame and a box inside it.\<close>

theorem crop_clips_to_frame_witness:
  "crop [[1, 2], [3, 4 :: 8 word]] (0, 0, 5, 5) = [[1, 2], [3, 4]]
   \<and> shape0 (crop [[1, 2], [3, 4 :: 8 word]] (0, 0, 5, 5)) = 2
   \<and> crop [[1, 2], [3, 4 :: 8 word]] (1, 0, 2, 1) = [[3]]"
  using crop_clips_to_frame [of 0 0 5 5 "[[1, 2], [3, 4 :: 8 word]]"]
        crop_clips_to_frame [of 1 0 2 1 "[[1, 2], [3, 4 :: 8 word]]"]
  by (simp add: shape0_def)

text \<open>
  Claim C2 as the specification states it asks for an InvalidRegionError when
  \<open>maxRow > frameHeight\<close> or \<open>maxCol > frameWidth\<close>. On a 2 by 2 frame the box
  \<open>(0, 0, 5, 5)\<close> exceeds both, and the Cropper returns the whole frame.
\<close>

theorem crop_box_beyond_frame_counterexample:
  "shape0 [[1, 2], [3, 4 :: 8 word]] < 5 \<and> shape1 [[1, 2], [3, 4 :: 8 word]] < 5
   \<and> crop [[1, 2], [3, 4 :: 8 word]] (0, 0, 5, 5) = [[1, 2], [3, 4]]"
  by (simp add: crop_def py_slice_def slice_bound_def shape0_def shape1_def)

section \<open>The frame shown to the ROI selector\<close>

lemma roi_frame_index:
  "roi_frame stack =
     (if length stack < 5 then Inl IndexError
      else Inr (stack ! (if length stack < 10 then 2 * length stack - 10 else length stack - 10)))"
proof -
  consider "length stack < 5" | "5 \<le> length stack" "length stack < 10" | "10 \<le> length stack"
    by linarith
  then show ?thesis
  proof cases
    case 1
    then show ?thesis by (simp add: roi_frame_def py_index_def)
  next
    case 2
    then have "nat (int (length stack) - 10 + int (length stack)) = 2 * length stack - 10"
      by linarith
    with 2 show ?thesis by (simp add: roi_frame_def py_index_def)
  next
    case 3
    then have "nat (int (length stack) - 10) = length stack - 10"
      by linarith
    with 3 show ?thesis by (simp add: roi_frame_def py_index_def)
  qed
qed






section \<open>The largest region\<close>

lemma argmax_scan_spec:
  "(argmax_scan best bv i xs = best \<and> (\<forall>j<length xs. xs ! j \<le> bv))
   \<or> (\<exists>k<length xs. argmax_scan best bv i xs = i + k \<and> bv < xs ! k
          \<and> (\<forall>j<length xs. xs ! j \<le> xs ! k) \<and> (\<forall>j<k. xs ! j < xs ! k))"
proof (induction xs arbitrary: best bv i)
  case Nil
  then show ?case by simp
next
  case (Cons x xs)
  show ?case
  proof (cases "bv < x")
    case True
    from Cons.IH [of i x "Suc i"] show ?thesis
    proof
      assume a: "argmax_scan i x (Suc i) xs = i \<and> (\<forall>j<length xs. xs ! j \<le> x)"
      have "\<forall>j<length (x # xs). (x # xs) ! j \<le> (x # xs) ! 0"
        using a by (simp add: nth_Cons split: nat.splits)
      with a True have "0 < length (x # xs) \<and> argmax_scan best bv i (x # xs) = i + 0
          \<and> bv < (x # xs) ! 0
          \<and> (\<forall>j<length (x # xs). (x # xs) ! j \<le> (x # xs) ! 0)
          \<and> (\<forall>j<0. (x # xs) ! j < (x # xs) ! 0)"
        by simp
      then show ?thesis by blast
    next
      assume "\<exists>k<length xs. argmax_scan i x (Suc i) xs = Suc i + k \<and> x < xs ! k
          \<and> (\<forall>j<length xs. xs ! j \<le> xs ! k) \<and> (\<forall>j<k. xs ! j < xs ! k)"
      then obtain k where k: "k < length xs" "argmax_scan i x (Suc i) xs = Suc i + k"
          "x < xs ! k" "\<forall>j<length xs. xs ! j \<le> xs ! k" "\<forall>j<k. xs ! j < xs ! k"
        by blast
      have le: "\<forall>j<length (x # xs). (x # xs) ! j \<le> (x # xs) ! Suc k"
        using k(3,4) by (simp add: nth_Cons split: nat.splits)
      have lt: "\<forall>j<Suc k. (x # xs) ! j < (x # xs) ! Suc k"
        using k(3,5) by (simp add: nth_Cons split: nat.splits)
      have "Suc k < length (x # xs) \<and> argmax_scan best bv i (x # xs) = i + Suc k
          \<and> bv < (x # xs) ! Suc k"
        using k(1,2,3) True by simp
      with le lt show ?thesis by blast
    qed
  next
    case False
    from Cons.IH [of best bv "Suc i"] show ?thesis
    proof
      assume a: "argmax_scan best bv (Suc i) xs = best \<and> (\<forall>j<length xs. xs ! j \<le> bv)"
      have "\<forall>j<length (x # xs). (x # xs) ! j \<le> bv"
        using a False by (simp add: nth_Cons split: nat.splits)
      with a False show ?thesis by simp
    next
      assume "\<exists>k<length xs. argmax_scan best bv (Suc i) xs = Suc i + k \<and> bv < xs ! k
          \<and> (\<forall>j<length xs. xs ! j \<le> xs ! k) \<and> (\<forall>j<k. xs ! j < xs ! k)"
      then obtain k where k: "k < length xs" "argmax_scan best bv (Suc i) xs = Suc i + k"
          "bv < xs ! k" "\<forall>j<length xs. xs ! j \<le> xs ! k" "\<forall>j<k. xs ! j < xs ! k"
        by blast
      have le: "\<forall>j<length (x # xs). (x # xs) ! j \<le> (x # xs) ! Suc k"
        using k(3,4) False by (simp add: nth_Cons split: nat.splits)
      have lt: "\<forall>j<Suc k. (x # xs) ! j < (x # xs) ! Suc k"
        using k(3,5) False by (simp add: nth_Cons split: nat.splits)
      have "Suc k < length (x # xs) \<and> argmax_scan best bv i (x # xs) = i + Suc k
          \<and> bv < (x # xs) ! Suc k"
        using k(1,2,3) False by simp
      with le lt show ?thesis by blast
    qed
  qed
qed

lemma np_argmax_first_maximum:
  assumes "xs \<noteq> []"
  shows "\<exists>k<length xs. np_argmax xs = Inr k
           \<and> (\<forall>j<length xs. xs ! j \<le> xs ! k) \<and> (\<forall>j<k. xs ! j < xs ! k)"
proof -
  from assms obtain x rest where xs: "xs = x # rest"
    by (cases xs) auto
  from argmax_scan_spec [of 0 x 1 rest] show ?thesis
  proof
    assume a: "argmax_scan 0 x 1 rest = 0 \<and> (\<forall>j<length rest. rest ! j \<le> x)"
    have "\<forall>j<length xs. xs ! j \<le> xs ! 0"
      using a by (simp add: xs nth_Cons split: nat.splits)
    moreover have "np_argmax xs = Inr 0"
      using a by (simp add: xs np_argmax_def)
    ultimately have "0 < length xs \<and> np_argmax xs = Inr 0
        \<and> (\<forall>j<length xs. xs ! j \<le> xs ! 0) \<and> (\<forall>j<0. xs ! j < xs ! 0)"
      by (simp add: xs)
    then show ?thesis by blast
  next
    assume "\<exists>k<length rest. argmax_scan 0 x 1 rest = 1 + k \<and> x < rest ! k
        \<and> (\<forall>j<length rest. rest ! j \<le> rest ! k) \<and> (\<forall>j<k. rest ! j < rest ! k)"
    then obtain k where k: "k < length rest" "argmax_scan 0 x 1 rest = 1 + k" "x < rest ! k"
        "\<forall>j<length rest. rest ! j \<le> rest ! k" "\<forall>j<k. rest ! j < rest ! k"
      by blast
    have le: "\<forall>j<length xs. xs ! j \<le> xs ! Suc k"
      using k(3,4) by (simp add: xs nth_Cons split: nat.splits)
    have lt: "\<forall>j<Suc k. xs ! j < xs ! Suc k"
      using k(3,5) by (simp add: xs nth_Cons split: nat.splits)
    have "Suc k < length xs \<and> np_argmax xs = Inr (Suc k)"
      using k(1,2) by (simp add: xs np_argmax_def)
    with le lt show ?thesis by blast
  qed
qed

text \<open>
  Claim C4. Whenever the closed and labelled mask of a frame has at least one region,
  \<^verbatim>\<open>analyze_front\<close> returns the area and the bounding box of one region \<open>k\<close> of the
  list that \<^verbatim>\<open>regionprops\<close> gave: no region has a larger area, and every region before
  \<open>k\<close> has a strictly smaller one, so that among regions of maximal area the first is
  taken.
\<close>

theorem analyze_front_largest_first:
  assumes "regionprops L (measure_label L (closing L (Square 3) (gt_threshold img thresh)))
             = regProp"
    and "regProp \<noteq> []"
  shows "\<exists>k<length regProp.
           (\<forall>j<length regProp. area (regProp ! j) \<le> area (regProp ! k))
           \<and> (\<forall>j<k. area (regProp ! j) < area (regProp ! k))
           \<and> analyze_front L img thresh expName stackIdx =
               Inr \<lparr>ExpName = expName, FrameNo = stackIdx, Area = area (regProp ! k),
                    MinRow = fst (bbox (regProp ! k)),
                    MinCol = fst (snd (bbox (regProp ! k))),
                    MaxRow = fst (snd (snd (bbox (regProp ! k)))),
                    MaxCol = snd (snd (snd (bbox (regProp ! k)))),
                    HeightPx = np_truediv (area (regProp ! k)) (real (shape0 img))\<rparr>"
proof -
  from assms(2) have "map area regProp \<noteq> []" by simp
  from np_argmax_first_maximum [OF this]
  obtain k where k: "k < length regProp" "np_argmax (map area regProp) = Inr k"
      "\<forall>j<length regProp. map area regProp ! j \<le> map area regProp ! k"
      "\<forall>j<k. map area regProp ! j < map area regProp ! k"
    by auto
  have le: "\<forall>j<length regProp. area (regProp ! j) \<le> area (regProp ! k)"
    using k(1,3) by simp
  have lt: "\<forall>j<k. area (regProp ! j) < area (regProp ! k)"
    using k(1,4) by simp
  have "analyze_front L img thresh expName stackIdx =
               Inr \<lparr>ExpName = expName, FrameNo = stackIdx, Area = area (regProp ! k),
                    MinRow = fst (bbox (regProp ! k)),
                    MinCol = fst (snd (bbox (regProp ! k))),
                    MaxRow = fst (snd (snd (bbox (regProp ! k)))),
                    MaxCol = snd (snd (snd (bbox (regProp ! k)))),
                    HeightPx = np_truediv (area (regProp ! k)) (real (shape0 img))\<rparr>"
    using assms(1) k(2) by (simp add: analyze_front_def Let_def split: prod.splits)
  with k(1) le lt show ?thesis by blast
qed

text \<open>
  The theorem where \<^verbatim>\<open>regionprops\<close> reports regions of areas 50, 200 and 200: the
  record is that of the first region of area 200.
\<close>

theorem analyze_front_largest_first_witness:
  "demo_regions \<noteq> []
   \<and> analyze_front (demo_lib\<lparr>regionprops := \<lambda>lab. demo_regions\<rparr>) [[10, 200]] 100 ''a'' 7 =
       Inr \<lparr>ExpName = ''a'', FrameNo = 7, Area = 200, MinRow = 10, MinCol = 0,
            MaxRow = 20, MaxCol = 20, HeightPx = Finite 200\<rparr>"
proof -
  let ?L = "demo_lib\<lparr>regionprops := \<lambda>lab. demo_regions\<rparr>"
  have r: "regionprops ?L (measure_label ?L (closing ?L (Square 3) (gt_threshold [[10, 200]] 100)))
             = demo_regions"
    by simp
  have ne: "demo_regions \<noteq> []"
    by (simp add: demo_regions_def)
  from analyze_front_largest_first [OF r ne, of "''a''" 7]
  obtain k where k: "k < length demo_regions"
      "\<forall>j<length demo_regions. area (demo_regions ! j) \<le> area (demo_regions ! k)"
      "\<forall>j<k. area (demo_regions ! j) < area (demo_regions ! k)"
      "analyze_front ?L [[10, 200]] 100 ''a'' 7 =
               Inr \<lparr>ExpName = ''a'', FrameNo = 7, Area = area (demo_regions ! k),
                    MinRow = fst (bbox (demo_regions ! k)),
                    MinCol = fst (snd (bbox (demo_regions ! k))),
                    MaxRow = fst (snd (snd (bbox (demo_regions ! k)))),
                    MaxCol = snd (snd (snd (bbox (demo_regions ! k)))),
                    HeightPx = np_truediv (area (demo_regions ! k)) (real (shape0 [[10, 200 :: 8 word]]))\<rparr>"
    by blast
  from k(1) have "k = 0 \<or> k = 1 \<or> k = 2"
    by (auto simp: demo_regions_def)
  moreover have "k \<noteq> 0"
  proof
    assume "k = 0"
    moreover have "1 < length demo_regions" by (simp add: demo_regions_def)
    ultimately have "area (demo_regions ! 1) \<le> area (demo_regions ! 0)"
      using k(2) by blast
    then show False by (simp add: demo_regions_def)
  qed
  moreover have "k \<noteq> 2"
  proof
    assume "k = 2"
    then have "area (demo_regions ! 1) < area (demo_regions ! 2)"
      using k(3) by simp
    then show False by (simp add: demo_regions_def)
  qed
  ultimately have "k = 1" by blast
  with k(4) ne show ?thesis
    by (simp add: demo_regions_def np_truediv_def shape0_def)
qed

text \<open>
  Claim C5. When the closed and labelled mask has no region, \<^verbatim>\<open>analyze_front\<close> returns
  no record: \<^verbatim>\<open>np.argmax\<close> of the empty list of areas raises ValueError, which nothing
  catches. This exception is what the specification calls NoRegionFoundError.
\<close>

theorem analyze_front_no_region:
  assumes "regionprops L (measure_label L (closing L (Square 3) (gt_threshold img thresh))) = []"
  shows "analyze_front L img thresh expName stackIdx = Inl ValueError"
  using assms by (simp add: analyze_front_def np_argmax_def)

text \<open>The theorem at a frame whose mask is all zero.\<close>

theorem analyze_front_no_region_witness:
  "gt_threshold [[10, 20], [30, 40]] 100 = [[False, False], [False, False]]
   \<and> analyze_front demo_lib [[10, 20], [30, 40]] 100 ''a'' 0 = Inl ValueError"
proof -
  have m: "gt_threshold [[10, 20], [30, 40]] 100 = [[False, False], [False, False]]"
    by (simp add: gt_threshold_def)
  have "regionprops demo_lib (measure_label demo_lib
          (closing demo_lib (Square 3) (gt_threshold [[10, 20], [30, 40]] 100))) = []"
    by (simp add: m demo_lib_def demo_regionprops_def)
  from analyze_front_no_region [OF this] m show ?thesis by simp
qed

section \<open>One threshold for a clip\<close>

lemma py_index_in_range: "i < length xs \<Longrightarrow> py_index xs (int i) = Inr (xs ! i)"
  by (simp add: py_index_def)

lemma front_loop_Inr:
  "front_loop L stack t name idxs df = Inr rows \<longleftrightarrow>
     (\<exists>new. rows = df @ new
        \<and> list_all2 (\<lambda>i row. \<exists>img. py_index stack (int i) = Inr img
                                \<and> analyze_front L img t name i = Inr row) idxs new)"
proof (induction idxs arbitrary: df)
  case Nil
  then show ?case by auto
next
  case (Cons i idxs)
  show ?case
  proof (cases "py_index stack (int i)")
    case (Inl e)
    then show ?thesis by (auto simp: list_all2_Cons1)
  next
    case (Inr img)
    note img = this
    show ?thesis
    proof (cases "analyze_front L img t name i")
      case (Inl e)
      with img show ?thesis by (auto simp: list_all2_Cons1)
    next
      case (Inr row)
      have "front_loop L stack t name (i # idxs) df = Inr rows \<longleftrightarrow>
              front_loop L stack t name idxs (df @ [row]) = Inr rows"
        using img Inr by simp
      also have "\<dots> \<longleftrightarrow> (\<exists>new. rows = (df @ [row]) @ new
        \<and> list_all2 (\<lambda>i row. \<exists>img. py_index stack (int i) = Inr img
                                \<and> analyze_front L img t name i = Inr row) idxs new)"
        by (rule Cons.IH)
      also have "\<dots> \<longleftrightarrow> (\<exists>new. rows = df @ new
        \<and> list_all2 (\<lambda>i row. \<exists>img. py_index stack (int i) = Inr img
                                \<and> analyze_front L img t name i = Inr row) (i # idxs) new)"
        using img Inr by (auto simp: list_all2_Cons1)
      finally show ?thesis .
    qed
  qed
qed

lemma front_loop_all_frames:
  "front_loop L stack t name [0..<length stack] [] = Inr rows \<longleftrightarrow>
     (length rows = length stack
      \<and> (\<forall>i<length stack. analyze_front L (stack ! i) t name i = Inr (rows ! i)))"
proof -
  have "front_loop L stack t name [0..<length stack] [] = Inr rows \<longleftrightarrow>
          list_all2 (\<lambda>i row. \<exists>img. py_index stack (int i) = Inr img
                                \<and> analyze_front L img t name i = Inr row) [0..<length stack] rows"
    by (simp add: front_loop_Inr)
  also have "\<dots> \<longleftrightarrow> (length rows = length stack
      \<and> (\<forall>i<length stack. analyze_front L (stack ! i) t name i = Inr (rows ! i)))"
    by (auto simp: list_all2_conv_all_nth py_index_in_range)
  finally show ?thesis .
qed

lemma determine_threshold_Inr:
  "determine_threshold L stack = Inr t \<longleftrightarrow>
     (stack \<noteq> [] \<and> threshold_minimum L (stack ! (length stack div 2)) = Inr t)"
proof (cases "stack = []")
  case True
  then show ?thesis by (simp add: determine_threshold_def py_index_def)
next
  case False
  then have "length stack div 2 < length stack" by simp
  then have "py_index stack (int (length stack div 2)) = Inr (stack ! (length stack div 2))"
    by (rule py_index_in_range)
  moreover have "int (length stack) div 2 = int (length stack div 2)"
    by simp
  ultimately show ?thesis
    using False by (simp add: determine_threshold_def)
qed

text \<open>
  Claim C6. \<^verbatim>\<open>process_movie\<close> returns a table exactly when the clip has a frame, the
  minimum-of-histogram method succeeds on the frame of index \<open>len(stack) div 2\<close> of the
  cropped stack with some threshold \<open>t\<close>, and \<^verbatim>\<open>analyze_front\<close> succeeds on every frame
  with this one \<open>t\<close>; row \<open>i\<close> of the table is then the record of frame \<open>i\<close> under \<open>t\<close>.
  The threshold is computed before the loop and is an argument of it: no frame gets
  another one.
\<close>

theorem process_movie_single_threshold:
  "process_movie L file df_crop = Inr rows \<longleftrightarrow>
     (\<exists>stack b t.
        open_video L file = Inr stack
        \<and> cropping_box_of df_crop (exp_name file) = Inr b
        \<and> stack \<noteq> []
        \<and> threshold_minimum L (map (\<lambda>img. crop img b) stack ! (length stack div 2)) = Inr t
        \<and> length rows = length stack
        \<and> (\<forall>i<length stack. analyze_front L (stack ! i) t (exp_name file) i = Inr (rows ! i)))"
proof (cases "open_video L file")
  case (Inl e)
  then show ?thesis by (simp add: process_movie_def)
next
  case (Inr stack)
  note stack = this
  show ?thesis
  proof (cases "cropping_box_of df_crop (exp_name file)")
    case (Inl e)
    with stack show ?thesis by (simp add: process_movie_def)
  next
    case (Inr b)
    note b = this
    show ?thesis
    proof (cases "determine_threshold L (map (\<lambda>img. crop img b) stack)")
      case (Inl e)
      then have "\<not> (stack \<noteq> [] \<and> (\<exists>t. threshold_minimum L
                    (map (\<lambda>img. crop img b) stack ! (length stack div 2)) = Inr t))"
        using determine_threshold_Inr [of L "map (\<lambda>img. crop img b) stack"] by auto
      moreover have "process_movie L file df_crop = Inl e"
        using stack b Inl by (simp add: process_movie_def)
      ultimately show ?thesis using stack b by auto
    next
      case (Inr t)
      then have t: "stack \<noteq> []"
          "threshold_minimum L (map (\<lambda>img. crop img b) stack ! (length stack div 2)) = Inr t"
        using determine_threshold_Inr [of L "map (\<lambda>img. crop img b) stack" t] by auto
      have "process_movie L file df_crop =
              front_loop L stack t (exp_name file) [0..<length stack] []"
        using stack b Inr by (simp add: process_movie_def)
      then have "process_movie L file df_crop = Inr rows \<longleftrightarrow>
                   (length rows = length stack
                    \<and> (\<forall>i<length stack.
                          analyze_front L (stack ! i) t (exp_name file) i = Inr (rows ! i)))"
        by (simp add: front_loop_all_frames)
      with stack b t show ?thesis by auto
    qed
  qed
qed

text \<open>The theorem on the five frames of the small instance, box \<open>(0, 0, 1, 2)\<close>.\<close>

theorem process_movie_single_threshold_witness:
  "\<exists>stack b t.
     open_video demo_lib ''d/a.avi'' = Inr stack
     \<and> cropping_box_of [(''a'', (0, 0, 1, 2))] (exp_name ''d/a.avi'') = Inr b
     \<and> stack \<noteq> []
     \<and> threshold_minimum demo_lib (map (\<lambda>img. crop img b) stack ! (length stack div 2)) = Inr t
     \<and> length stack = 5
     \<and> (\<forall>i<length stack.
           analyze_front demo_lib (stack ! i) t (exp_name ''d/a.avi'') i =
             Inr ([\<lparr>ExpName = ''a'', FrameNo = 0, Area = 1, MinRow = 0, MinCol = 0,
                     MaxRow = 2, MaxCol = 2, HeightPx = Finite (1 / 2)\<rparr>,
                   \<lparr>ExpName = ''a'', FrameNo = 1, Area = 1, MinRow = 0, MinCol = 0,
                     MaxRow = 2, MaxCol = 2, HeightPx = Finite (1 / 2)\<rparr>,
                   \<lparr>ExpName = ''a'', FrameNo = 2, Area = 2, MinRow = 0, MinCol = 0,
                     MaxRow = 2, MaxCol = 2, HeightPx = Finite 1\<rparr>,
                   \<lparr>ExpName = ''a'', FrameNo = 3, Area = 3, MinRow = 0, MinCol = 0,
                     MaxRow = 2, MaxCol = 2, HeightPx = Finite (3 / 2)\<rparr>,
                   \<lparr>ExpName = ''a'', FrameNo = 4, Area = 4, MinRow = 0, MinCol = 0,
                     MaxRow = 2, MaxCol = 2, HeightPx = Finite 2\<rparr>] ! i))"
proof -
  have run: "process_movie demo_lib ''d/a.avi'' [(''a'', (0, 0, 1, 2))] =
     Inr [\<lparr>ExpName = ''a'', FrameNo = 0, Area = 1, MinRow = 0, MinCol = 0,
                     MaxRow = 2, MaxCol = 2, HeightPx = Finite (1 / 2)\<rparr>,
                   \<lparr>ExpName = ''a'', FrameNo = 1, Area = 1, MinRow = 0, MinCol = 0,
                     MaxRow = 2, MaxCol = 2, HeightPx = Finite (1 / 2)\<rparr>,
                   \<lparr>ExpName = ''a'', FrameNo = 2, Area = 2, MinRow = 0, MinCol = 0,
                     MaxRow = 2, MaxCol = 2, HeightPx = Finite 1\<rparr>,
                   \<lparr>ExpName = ''a'', FrameNo = 3, Area = 3, MinRow = 0, MinCol = 0,
                     MaxRow = 2, MaxCol = 2, HeightPx = Finite (3 / 2)\<rparr>,
                   \<lparr>ExpName = ''a'', FrameNo = 4, Area = 4, MinRow = 0, MinCol = 0,
                     MaxRow = 2, MaxCol = 2, HeightPx = Finite 2\<rparr>]"
    by (simp add: process_movie_def demo_lib_def exp_name_def open_video_def demo_frames_def
        cropping_box_of_def determine_threshold_def py_index_def crop_def py_slice_def
        slice_bound_def analyze_front_def gt_threshold_def demo_regionprops_def np_argmax_def
        shape0_def shape1_def np_truediv_def upt_rec Let_def numeral_2_eq_2 [symmetric])
  have len: "open_video demo_lib ''d/a.avi'' = Inr stack \<Longrightarrow> length stack = 5" for stack
    by (auto simp: open_video_def demo_lib_def demo_frames_def)
  from process_movie_single_threshold [THEN iffD1, OF run] len show ?thesis
    by auto
qed

section \<open>The frames that are segmented\<close>


section \<open>Parallel workers and the concatenated table\<close>

lemma run_jobs_slots:
  assumes "run_jobs job order slots = Inr slots'"
  shows "(\<forall>i. i \<in> set order \<longrightarrow> (\<exists>r. job i = Inr r \<and> slots' i = Some r))
         \<and> (\<forall>i. i \<notin> set order \<longrightarrow> slots' i = slots i)"
  using assms
proof (induction order arbitrary: slots)
  case Nil
  then show ?case by simp
next
  case (Cons j order)
  from Cons.prems obtain r where r: "job j = Inr r"
    by (cases "job j") auto
  with Cons.prems have run: "run_jobs job order (slots(j \<mapsto> r)) = Inr slots'"
    by simp
  from Cons.IH [OF run]
  have ih: "\<forall>i. i \<in> set order \<longrightarrow> (\<exists>r. job i = Inr r \<and> slots' i = Some r)"
       "\<forall>i. i \<notin> set order \<longrightarrow> slots' i = (slots(j \<mapsto> r)) i"
    by blast+
  have "slots' j = Some r"
  proof (cases "j \<in> set order")
    case True
    with ih(1) r show ?thesis by auto
  next
    case False
    with ih(2) show ?thesis by simp
  qed
  with ih r show ?case by auto
qed

lemma run_jobs_succeeds:
  assumes "\<forall>i\<in>set order. \<exists>r. job i = Inr r"
  shows "\<exists>slots'. run_jobs job order slots = Inr slots'"
  using assms
proof (induction order arbitrary: slots)
  case Nil
  then show ?case by simp
next
  case (Cons j order)
  then obtain r where "job j = Inr r" by auto
  with Cons show ?case by simp
qed

lemma gather_filled:
  assumes "\<forall>i\<in>set idxs. slots i = Some (g i)"
  shows "gather slots idxs = map g idxs"
  using assms by (induction idxs) auto

lemma set_completion_order: "set (completion_order finish n) = {0..<n}"
  by (simp add: completion_order_def)

lemma Parallel_Inr:
  "Parallel finish f tasks = Inr ys \<longleftrightarrow> map f tasks = map Inr ys"
proof
  assume p: "Parallel finish f tasks = Inr ys"
  then obtain slots where run:
      "run_jobs (\<lambda>i. f (tasks ! i)) (completion_order finish (length tasks)) Map.empty = Inr slots"
    and ys: "ys = gather slots [0..<length tasks]"
    by (auto simp: Parallel_def split: sum.splits)
  from run_jobs_slots [OF run]
  have filled: "\<forall>i<length tasks. \<exists>r. f (tasks ! i) = Inr r \<and> slots i = Some r"
    by (simp add: set_completion_order)
  define g where "g i = projr (f (tasks ! i))" for i
  have fg: "\<forall>i<length tasks. f (tasks ! i) = Inr (g i) \<and> slots i = Some (g i)"
    using filled by (auto simp: g_def)
  then have "gather slots [0..<length tasks] = map g [0..<length tasks]"
    by (intro gather_filled) simp
  with ys have ys': "ys = map g [0..<length tasks]" by simp
  show "map f tasks = map Inr ys"
    using fg by (auto simp: ys' intro: nth_equalityI)
next
  assume m: "map f tasks = map Inr ys"
  then have len: "length ys = length tasks"
    using length_map by metis
  have each: "f (tasks ! i) = Inr (ys ! i)" if "i < length tasks" for i
  proof -
    have "map f tasks ! i = map Inr ys ! i" by (simp add: m)
    with that len show ?thesis by simp
  qed
  then have "\<forall>i\<in>set (completion_order finish (length tasks)). \<exists>r. f (tasks ! i) = Inr r"
    by (auto simp: set_completion_order)
  from run_jobs_succeeds [OF this]
  obtain slots where run:
      "run_jobs (\<lambda>i. f (tasks ! i)) (completion_order finish (length tasks)) Map.empty = Inr slots"
    by blast
  from run_jobs_slots [OF run] each
  have "\<forall>i\<in>set [0..<length tasks]. slots i = Some (ys ! i)"
    by (auto simp: set_completion_order)
  then have "gather slots [0..<length tasks] = map (\<lambda>i. ys ! i) [0..<length tasks]"
    by (rule gather_filled)
  also have "\<dots> = ys"
    using len by (auto intro: nth_equalityI)
  finally show "Parallel finish f tasks = Inr ys"
    using run by (simp add: Parallel_def)
qed

lemma analyze_front_labels:
  assumes "analyze_front L img t name i = Inr row"
  shows "FrameNo row = i \<and> ExpName row = name"
  using assms by (auto simp: analyze_front_def Let_def split: sum.splits prod.splits)

lemma process_movie_labels:
  assumes "process_movie L file df_crop = Inr rows"
  shows "map FrameNo rows = [0..<length rows] \<and> list_all (\<lambda>r. ExpName r = exp_name file) rows"
proof -
  from assms obtain stack t where len: "length rows = length stack"
    and each: "\<forall>i<length stack. analyze_front L (stack ! i) t (exp_name file) i = Inr (rows ! i)"
    by (auto simp: process_movie_def Let_def front_loop_all_frames split: sum.splits)
  have lab: "FrameNo (rows ! i) = i \<and> ExpName (rows ! i) = exp_name file" if "i < length rows" for i
    using each that len analyze_front_labels by metis
  have "map FrameNo rows = [0..<length rows]"
    using lab by (auto intro: nth_equalityI)
  moreover have "list_all (\<lambda>r. ExpName r = exp_name file) rows"
    using lab by (auto simp: list_all_length)
  ultimately show ?thesis by simp
qed

text \<open>
  Claim C7, for the front pipeline. The saved table exists exactly when the ROI table
  can be built, there is at least one file, and \<^verbatim>\<open>process_movie\<close> succeeds on every
  file; it is then the tables of the files, concatenated in the order of the file list,
  each with its frame numbers \<open>0, 1, 2, \<dots>\<close> in order and the experiment name of its
  file. The right-hand side does not mention the finishing times of the workers: the
  table is the same whatever order they complete in.
\<close>

theorem process_all_file_and_frame_order:
  "process_all L finish file_list = Inr df \<longleftrightarrow>
     (\<exists>df_crop df_list.
        obtain_cropping_boxes L file_list = Inr df_crop
        \<and> file_list \<noteq> []
        \<and> map (\<lambda>file. process_movie L file df_crop) file_list = map Inr df_list
        \<and> df = concat df_list
        \<and> list_all2 (\<lambda>file rows. map FrameNo rows = [0..<length rows]
                         \<and> list_all (\<lambda>r. ExpName r = exp_name file) rows) file_list df_list)"
proof (cases "obtain_cropping_boxes L file_list")
  case (Inl e)
  then show ?thesis by (simp add: process_all_def)
next
  case (Inr df_crop)
  have labels: "list_all2 (\<lambda>file rows. map FrameNo rows = [0..<length rows]
                  \<and> list_all (\<lambda>r. ExpName r = exp_name file) rows) file_list df_list"
    if m: "map (\<lambda>file. process_movie L file df_crop) file_list = map Inr df_list" for df_list
  proof -
    have len: "length df_list = length file_list"
      using m length_map by metis
    have "process_movie L (file_list ! i) df_crop = Inr (df_list ! i)" if "i < length file_list" for i
    proof -
      have "map (\<lambda>file. process_movie L file df_crop) file_list ! i = map Inr df_list ! i"
        by (simp add: m)
      with that len show ?thesis by simp
    qed
    then show ?thesis
      using len by (auto simp: list_all2_conv_all_nth dest: process_movie_labels)
  qed
  have "process_all L finish file_list = Inr df \<longleftrightarrow>
          (\<exists>df_list. Parallel finish (\<lambda>file. process_movie L file df_crop) file_list = Inr df_list
                      \<and> df_list \<noteq> [] \<and> df = concat df_list)"
    using Inr by (auto simp: process_all_def pd_concat_def split: sum.splits)
  also have "\<dots> \<longleftrightarrow>
          (\<exists>df_list. map (\<lambda>file. process_movie L file df_crop) file_list = map Inr df_list
                      \<and> file_list \<noteq> [] \<and> df = concat df_list)"
    by (auto simp: Parallel_Inr)
  also have "\<dots> \<longleftrightarrow>
          (\<exists>df_list. file_list \<noteq> []
             \<and> map (\<lambda>file. process_movie L file df_crop) file_list = map Inr df_list
             \<and> df = concat df_list
             \<and> list_all2 (\<lambda>file rows. map FrameNo rows = [0..<length rows]
                         \<and> list_all (\<lambda>r. ExpName r = exp_name file) rows) file_list df_list)"
    using labels by blast
  finally show ?thesis using Inr by simp
qed

section \<open>Runs of the small instance\<close>

lemma demo_exp_names:
  "exp_name ''d/a.avi'' = ''a''" "exp_name ''d/b.avi'' = ''b''"
  "exp_name ''d/x.png'' = ''x''" "exp_name ''d/y.png'' = ''y''"
  by (simp_all add: exp_name_def)

lemma demo_process_movie:
  assumes "cropping_box_of df_crop (exp_name file) = Inr (0, 0, 1, 2)"
  shows "process_movie demo_lib file df_crop = Inr (demo_rows (exp_name file))"
  using assms
  by (simp add: process_movie_def demo_lib_def open_video_def demo_frames_def
      determine_threshold_def py_index_def crop_def py_slice_def
      slice_bound_def analyze_front_def gt_threshold_def demo_regionprops_def np_argmax_def
      shape0_def shape1_def np_truediv_def upt_rec Let_def numeral_2_eq_2 [symmetric]
      demo_rows_def)

lemma demo_obtain_cropping_boxes:
  "obtain_cropping_boxes demo_lib [''d/a.avi'', ''d/b.avi''] =
     Inr [(''a'', (0, 0, 1, 2)), (''b'', (0, 0, 1, 2))]"
proof -
  have roi: "roi_frame demo_frames = Inr (demo_frames ! 0)"
    by (simp add: roi_frame_index) (simp add: demo_frames_def)
  have ov: "open_video demo_lib f = Inr demo_frames" for f
    by (simp add: open_video_def demo_lib_def)
  have sel: "select_rectangle demo_lib img = (0, 0, 1, 2)" for img
    by (simp add: demo_lib_def)
  show ?thesis
    by (simp add: obtain_cropping_boxes_def ov roi sel demo_exp_names)
qed

lemma demo_movies:
  "map (\<lambda>file. process_movie demo_lib file [(''a'', (0, 0, 1, 2)), (''b'', (0, 0, 1, 2))])
     [''d/a.avi'', ''d/b.avi''] = map Inr [demo_rows ''a'', demo_rows ''b'']"
proof -
  have "cropping_box_of [(''a'', (0, 0, 1, 2)), (''b'', (0, 0, 1, 2))] (exp_name ''d/a.avi'')
          = Inr (0, 0, 1, 2)"
       "cropping_box_of [(''a'', (0, 0, 1, 2)), (''b'', (0, 0, 1, 2))] (exp_name ''d/b.avi'')
          = Inr (0, 0, 1, 2)"
    by (simp_all add: cropping_box_of_def demo_exp_names)
  then show ?thesis
    using demo_process_movie by (simp add: demo_exp_names)
qed


text \<open>
  The theorem on two clips, with the worker of the first clip finishing first and with
  the worker of the second clip finishing first: one and the same table.
\<close>

theorem process_all_file_and_frame_order_witness:
  "process_all demo_lib (\<lambda>i. i) [''d/a.avi'', ''d/b.avi''] = Inr (demo_rows ''a'' @ demo_rows ''b'')
   \<and> process_all demo_lib (\<lambda>i. 5 - i) [''d/a.avi'', ''d/b.avi''] = Inr (demo_rows ''a'' @ demo_rows ''b'')
   \<and> completion_order (\<lambda>i. i) 2 = [0, 1]
   \<and> completion_order (\<lambda>i. 5 - i) 2 = [1, 0]"
proof -
  have labels: "list_all2 (\<lambda>file rows. map FrameNo rows = [0..<length rows]
                  \<and> list_all (\<lambda>r. ExpName r = exp_name file) rows)
                [''d/a.avi'', ''d/b.avi''] [demo_rows ''a'', demo_rows ''b'']"
    by (simp add: demo_exp_names) (simp add: demo_rows_def upt_rec)
  have rhs: "\<exists>df_crop df_list.
        obtain_cropping_boxes demo_lib [''d/a.avi'', ''d/b.avi''] = Inr df_crop
        \<and> [''d/a.avi'', ''d/b.avi''] \<noteq> []
        \<and> map (\<lambda>file. process_movie demo_lib file df_crop) [''d/a.avi'', ''d/b.avi'']
            = map Inr df_list
        \<and> demo_rows ''a'' @ demo_rows ''b'' = concat df_list
        \<and> list_all2 (\<lambda>file rows. map FrameNo rows = [0..<length rows]
                         \<and> list_all (\<lambda>r. ExpName r = exp_name file) rows)
             [''d/a.avi'', ''d/b.avi''] df_list"
    using demo_obtain_cropping_boxes demo_movies labels
    by (intro exI [of _ "[(''a'', (0, 0, 1, 2)), (''b'', (0, 0, 1, 2))]"]
              exI [of _ "[demo_rows ''a'', demo_rows ''b'']"]) simp
  have order: "completion_order (\<lambda>i. i) 2 = [0, 1]" "completion_order (\<lambda>i. 5 - i) 2 = [1, 0]"
    by (simp_all add: completion_order_def upt_rec numeral_2_eq_2)
  from process_all_file_and_frame_order [THEN iffD2, OF rhs, of "\<lambda>i. i"]
       process_all_file_and_frame_order [THEN iffD2, OF rhs, of "\<lambda>i. 5 - i"] order
  show ?thesis by simp
qed

lemma demo_analyze_bubbles:
  "analyze_bubbles demo_lib [[10, 200]] 2 0 = demo_bubbles_x"
  "analyze_bubbles demo_lib [[200, 200]] 2 0 = demo_bubbles_y"
  by (simp_all add: analyze_bubbles_def segment_bubbles_def demo_lib_def gt_threshold_def
      demo_regionprops_def shape0_def shape1_def np_truediv_def Let_def
      demo_bubbles_x_def demo_bubbles_y_def)

lemma demo_bubble_main:
  "bubble_main demo_lib ''d'' False 2 w =
     (None, w\<lparr>plotted := plotted w @ [(demo_bubbles_x, ''d/ProcessedData.pkl''),
                                      (demo_bubbles_y, ''d/ProcessedData.pkl'')]\<rparr>)"
proof -
  have files: "bubble_file_list demo_lib ''d'' = Inr ([''d/x.png'', ''d/y.png''], False)"
    by (simp add: bubble_file_list_def demo_lib_def endswith_def)
  have boxes: "imagetools_obtain_cropping_boxes demo_lib [''d/x.png'', ''d/y.png''] =
                 Inr [(''x'', (0, 0, 1, 2)), (''y'', (0, 0, 1, 2))]"
    by (simp add: demo_lib_def demo_exp_names)
  have rd: "imread demo_lib ''d/x.png'' = Inr [[10, 200], [200, 200]]"
           "imread demo_lib ''d/y.png'' = Inr [[200, 200], [200, 200]]"
    by (simp_all add: demo_lib_def)
  have cr: "crop [[10, 200], [200, 200 :: 8 word]] (0, 0, 1, 2) = [[10, 200]]"
           "crop [[200, 200], [200, 200 :: 8 word]] (0, 0, 1, 2) = [[200, 200]]"
    by (simp_all add: crop_def py_slice_def slice_bound_def)
  show ?thesis
    by (simp add: bubble_main_def files boxes bubble_savepath_def cropping_box_of_def
        demo_exp_names rd cr demo_analyze_bubbles Let_def)
qed

text \<open>
  Claim C7 as stated covers both pipelines. The bubble main, run on a directory with
  two images, ends without error and has built no table of both files: each file's
  table went to the plot on its own and was then overwritten by the next.
\<close>

theorem bubble_main_no_concatenation_counterexample:
  "bubble_main demo_lib ''d'' False 2 \<lparr>pickles = Map.empty, plotted = []\<rparr> =
     (None, \<lparr>pickles = Map.empty,
             plotted = [(demo_bubbles_x, ''d/ProcessedData.pkl''),
                        (demo_bubbles_y, ''d/ProcessedData.pkl'')]\<rparr>)
   \<and> length demo_bubbles_x = 1 \<and> length demo_bubbles_y = 1"
  by (simp add: demo_bubble_main demo_bubbles_x_def demo_bubbles_y_def)

section \<open>The persisted table\<close>




section \<open>The bubble records\<close>



section \<open>The frame number of the bubble records\<close>

lemma analyze_bubbles_frame: "list_all (\<lambda>r. Frame r = k) (analyze_bubbles L img s k)"
  by (simp add: analyze_bubbles_def list_all_iff)

lemma bubble_loop_plots:
  assumes "bubble_loop L df_crop scale savepath files w = (res, w')"
  shows "\<exists>new. plotted w' = plotted w @ new \<and> pickles w' = pickles w
           \<and> length new \<le> length files
           \<and> list_all (\<lambda>t. list_all (\<lambda>r. Frame r = 0) (fst t)) new"
  using assms
proof (induction files arbitrary: w)
  case Nil
  then show ?case by auto
next
  case (Cons f files)
  show ?case
  proof (cases "cropping_box_of df_crop (exp_name f)")
    case (Inl e)
    with Cons.prems show ?thesis by auto
  next
    case (Inr b)
    note b = this
    show ?thesis
    proof (cases "imread L f")
      case (Inl e)
      with b Cons.prems show ?thesis by auto
    next
      case (Inr img)
      let ?df = "analyze_bubbles L (crop img b) scale 0"
      let ?w = "w\<lparr>plotted := plotted w @ [(?df, savepath)]\<rparr>"
      from Cons.prems b Inr
      have "bubble_loop L df_crop scale savepath files ?w = (res, w')"
        by (simp add: Let_def)
      from Cons.IH [OF this]
      obtain new where new: "plotted w' = plotted ?w @ new" "pickles w' = pickles ?w"
          "length new \<le> length files"
          "list_all (\<lambda>t. list_all (\<lambda>r. Frame r = 0) (fst t)) new"
        by blast
      have "plotted w' = plotted w @ ((?df, savepath) # new)"
        using new(1) by simp
      moreover have "pickles w' = pickles w"
        using new(2) by simp
      moreover have "length ((?df, savepath) # new) \<le> length (f # files)"
        using new(3) by simp
      moreover have "list_all (\<lambda>t. list_all (\<lambda>r. Frame r = 0) (fst t)) ((?df, savepath) # new)"
        using new(4) analyze_bubbles_frame [of 0 L "crop img b" scale] by simp
      ultimately show ?thesis by blast
    qed
  qed
qed

text \<open>
  Claim C9. The bubble main calls \<^verbatim>\<open>analyze_bubbles\<close> with frame number 0 for every
  file: whatever the input and however the run ends, every record of every table the
  run has produced has \<open>Frame = 0\<close>, so the frame number tells no two files apart.
\<close>

theorem bubble_main_frame_zero:
  assumes "bubble_main L dirname bReprocess scale w = (res, w')"
  shows "\<exists>new. plotted w' = plotted w @ new
           \<and> (\<forall>t\<in>set new. \<forall>r\<in>set (fst t). Frame r = 0)"
proof -
  have "\<exists>new. plotted w' = plotted w @ new
           \<and> list_all (\<lambda>t. list_all (\<lambda>r. Frame r = 0) (fst t)) new"
  proof (cases "bubble_file_list L dirname")
    case (Inl e)
    with assms show ?thesis by (simp add: bubble_main_def)
  next
    case (Inr fl)
    obtain file_list isFile where fl: "fl = (file_list, isFile)"
      by (cases fl)
    show ?thesis
    proof (cases "file_list = []")
      case True
      with assms Inr fl show ?thesis by (simp add: bubble_main_def)
    next
      case False
      note ne = this
      show ?thesis
      proof (cases "imagetools_obtain_cropping_boxes L file_list")
        case (Inl e)
        with assms Inr fl ne show ?thesis by (simp add: bubble_main_def Let_def)
      next
        case (Inr df_crop)
        with assms \<open>bubble_file_list L dirname = Inr fl\<close> fl ne
        have "bubble_loop L df_crop scale (bubble_savepath L dirname isFile) file_list w = (res, w')"
          by (simp add: bubble_main_def Let_def)
        from bubble_loop_plots [OF this] show ?thesis by blast
      qed
    qed
  qed
  then show ?thesis by (auto simp: list_all_iff)
qed

text \<open>The theorem on the run of the small instance over its two images.\<close>

theorem bubble_main_frame_zero_witness:
  "bubble_main demo_lib ''d'' False 2 \<lparr>pickles = Map.empty, plotted = []\<rparr> =
     (None, \<lparr>pickles = Map.empty,
             plotted = [(demo_bubbles_x, ''d/ProcessedData.pkl''),
                        (demo_bubbles_y, ''d/ProcessedData.pkl'')]\<rparr>)
   \<and> map Frame (demo_bubbles_x @ demo_bubbles_y) = [0, 0]"
proof -
  have run: "bubble_main demo_lib ''d'' False 2 \<lparr>pickles = Map.empty, plotted = []\<rparr> =
     (None, \<lparr>pickles = Map.empty,
             plotted = [(demo_bubbles_x, ''d/ProcessedData.pkl''),
                        (demo_bubbles_y, ''d/ProcessedData.pkl'')]\<rparr>)"
    by (simp add: demo_bubble_main)
  from bubble_main_frame_zero [OF run]
  have "\<forall>t\<in>set [(demo_bubbles_x, ''d/ProcessedData.pkl''),
                   (demo_bubbles_y, ''d/ProcessedData.pkl'')]. \<forall>r\<in>set (fst t). Frame r = 0"
    by simp
  then have "\<forall>r\<in>set (demo_bubbles_x @ demo_bubbles_y). Frame r = 0"
    by auto
  then have "map Frame (demo_bubbles_x @ demo_bubbles_y) =
               replicate (length (demo_bubbles_x @ demo_bubbles_y)) 0"
    by (simp add: map_replicate_const replicate_add cong: map_cong)
  with run show ?thesis
    by (simp add: demo_bubbles_x_def demo_bubbles_y_def)
qed

end
